theory Spec2Isabelle
  imports Complex_Main
begin

section \<open>The battery alert component of src/App.jsx\<close>

text \<open>
  The component \<open>BatteryAlertTool\<close> keeps its session in React state hooks and advances it
  from three places: the click handlers \<open>startMonitoring\<close> and \<open>stopMonitoring\<close>, the
  battery event listener \<open>updateBattery\<close>, and the callback of the 2000 ms interval of the
  monitoring effect. Each of them is embedded as a function on a record of the hooks.

  The interval callback reads \<open>battery\<close>, \<open>targetPercentage\<close>, \<open>chargingData\<close> and
  \<open>alertTriggered\<close> from the closure of the render that installed it. All four are
  dependencies of the effect, so the interval is re-installed after every change and the
  closure holds the state as it is before the callback runs; every setter called inside the
  callback writes the state of the next render. The embedding therefore evaluates every
  condition of the callback on the state before the call and applies the writes to the
  state after it.

  Numbers: JavaScript numbers are modelled as rationals, with the results of a division by
  zero (\<open>Infinity\<close>, \<open>-Infinity\<close>, \<open>NaN\<close>) as values of their own. Which samples are read,
  whether an estimate is emitted and what a zero elapsed time does are settled with exact
  quotients (\<open>js_div\<close>, \<open>chargeRate\<close>, \<open>tick\<close>). The value of an emitted estimate depends on
  the rounding of each operation; for it the same lines are modelled on IEEE doubles
  (\<open>round64\<close>, \<open>chargeRate64\<close>, \<open>tick64\<close>). \<open>Date.now()\<close> is an integer number of
  milliseconds.
\<close>

subsection \<open>Numbers\<close>

datatype jsnum = Num rat | PosInf | NegInf | NaN

text \<open>
  \<open>a / b\<close> for finite \<open>a\<close> and \<open>b\<close>, a zero \<open>b\<close> being \<open>+0\<close>, with the exact quotient;
  \<open>js_div64\<close> below is the same operation with the quotient rounded to a double.
\<close>

definition js_div :: "rat \<Rightarrow> rat \<Rightarrow> jsnum" where
  "js_div a b =
     (if b \<noteq> 0 then Num (a / b)
      else if 0 < a then PosInf
      else if a < 0 then NegInf
      else NaN)"

text \<open>\<open>a / r\<close> for a finite \<open>a\<close> and any \<open>r\<close>: a finite number over an infinity is zero.\<close>

fun js_div_by :: "rat \<Rightarrow> jsnum \<Rightarrow> jsnum" where
  "js_div_by a (Num r) = js_div a r"
| "js_div_by a PosInf = Num 0"
| "js_div_by a NegInf = Num 0"
| "js_div_by a NaN = NaN"

text \<open>\<open>r > 0\<close>: false for \<open>NaN\<close>.\<close>

fun js_gt0 :: "jsnum \<Rightarrow> bool" where
  "js_gt0 (Num r) = (0 < r)"
| "js_gt0 PosInf = True"
| "js_gt0 NegInf = False"
| "js_gt0 NaN = False"

text \<open>\<open>r <= 0\<close>: false for \<open>NaN\<close> too.\<close>

fun js_le0 :: "jsnum \<Rightarrow> bool" where
  "js_le0 (Num r) = (r \<le> 0)"
| "js_le0 PosInf = False"
| "js_le0 NegInf = True"
| "js_le0 NaN = False"

fun js_ceil :: "jsnum \<Rightarrow> jsnum" where
  "js_ceil (Num r) = Num (of_int \<lceil>r\<rceil>)"
| "js_ceil PosInf = PosInf"
| "js_ceil NegInf = NegInf"
| "js_ceil NaN = NaN"

subsection \<open>State\<close>

text \<open>The object \<open>{ level, charging }\<close> stored by \<open>setBattery\<close>.\<close>

record battery_reading =
  level :: rat
  charging :: bool

text \<open>The object \<open>{ level, time }\<close> appended to \<open>chargingData\<close>.\<close>

record sample =
  s_level :: rat
  s_time :: int

text \<open>
  The texts passed to \<open>setNotification\<close>, by kind; the one of \<open>startMonitoring\<close> carries the
  target it interpolates.
\<close>

datatype notification =
    NoNotification
  | BatteryNotSupportedDevice
  | BatteryNotSupportedBrowser
  | BatteryNotAvailable
  | MonitoringActive rat
  | MonitoringStopped
  | TimeToUnplug

record state =
  battery :: "battery_reading option"
  targetPercentage :: rat
  isMonitoring :: bool
  alertTriggered :: bool
  chargingData :: "sample list"
  estimatedTime :: "jsnum option"
  notification :: notification
  monitoringRef :: bool

definition initial :: state where
  "initial =
     \<lparr> battery = None, targetPercentage = 90, isMonitoring = False, alertTriggered = False,
       chargingData = [], estimatedTime = None, notification = NoNotification,
       monitoringRef = False \<rparr>"

text \<open>
  The calls of the interval callback that leave the component's estimation core: a call of
  \<open>setEstimatedTime\<close> with a number (the spec's \<open>estimateUpdated\<close>) and a call of
  \<open>triggerAlert\<close> (the spec's \<open>alertFired\<close>).
\<close>

datatype effect = SetEstimatedTime jsnum | TriggerAlert

subsection \<open>The sample window\<close>

text \<open>The updater passed to \<open>setChargingData\<close>: append, then \<open>shift\<close> once above 50.\<close>

definition push :: "sample list \<Rightarrow> sample \<Rightarrow> sample list" where
  "push prev x =
     (let newData = prev @ [x]
      in if length newData > 50 then tl newData else newData)"

fun pushes :: "sample list \<Rightarrow> sample list \<Rightarrow> sample list" where
  "pushes w [] = w"
| "pushes w (x # xs) = pushes (push w x) xs"

text \<open>\<open>xs.slice(-n)\<close>: the last \<open>n\<close> elements, the whole array when it is shorter.\<close>

definition slice_last :: "nat \<Rightarrow> 'a list \<Rightarrow> 'a list" where
  "slice_last n xs = drop (length xs - n) xs"

subsection \<open>The interval callback\<close>

text \<open>
  Lines 77 to 81: the rate, computed when the array of the closure has more than five
  samples. \<open>None\<close> when the guard fails; reading \<open>recentData[0]\<close> of an empty slice would
  throw, which the guard excludes.
\<close>

definition chargeRate :: "sample list \<Rightarrow> rat \<Rightarrow> int \<Rightarrow> jsnum option" where
  "chargeRate cd currentLevel currentTime =
     (if length cd > 5 then
        (case slice_last 10 cd of
           [] \<Rightarrow> None
         | r0 # _ \<Rightarrow>
             (let timeDiff = of_int (currentTime - s_time r0) / 1000 / 60;
                  levelDiff = currentLevel - s_level r0
              in Some (js_div levelDiff timeDiff)))
      else None)"

text \<open>Lines 84 and 85.\<close>

definition estimatedMinutes :: "rat \<Rightarrow> rat \<Rightarrow> jsnum \<Rightarrow> jsnum" where
  "estimatedMinutes target currentLevel rate =
     (let remainingPercent = target - currentLevel
      in js_ceil (js_div_by remainingPercent rate))"

text \<open>The state writes of \<open>triggerAlert\<close>; sound, system notification and vibration are
  outside the state.\<close>

definition triggerAlert :: "state \<Rightarrow> state" where
  "triggerAlert s = s\<lparr>alertTriggered := True, notification := TimeToUnplug\<rparr>"

text \<open>Lines 70 to 89: the branch taken while charging below the target.\<close>

definition record_sample :: "state \<Rightarrow> battery_reading \<Rightarrow> int \<Rightarrow> state \<Rightarrow> effect list \<times> state" where
  "record_sample s b currentTime p =
     (if charging b \<and> level b < targetPercentage s then
        (let p1 = p\<lparr>chargingData := push (chargingData p) \<lparr>s_level = level b, s_time = currentTime\<rparr>\<rparr>
         in case chargeRate (chargingData s) (level b) currentTime of
              None \<Rightarrow> ([], p1)
            | Some r \<Rightarrow>
                if js_gt0 r then
                  (let m = estimatedMinutes (targetPercentage s) (level b) r
                   in ([SetEstimatedTime m], p1\<lparr>estimatedTime := Some m\<rparr>))
                else ([], p1))
      else ([], p))"

text \<open>Lines 91 to 93.\<close>

definition check_target :: "state \<Rightarrow> battery_reading \<Rightarrow> state \<Rightarrow> effect list \<times> state" where
  "check_target s b p =
     (if level b \<ge> targetPercentage s \<and> charging b \<and> \<not> alertTriggered s
      then ([TriggerAlert], triggerAlert p)
      else ([], p))"

text \<open>Lines 95 to 97.\<close>

definition check_unplugged :: "battery_reading \<Rightarrow> state \<Rightarrow> state" where
  "check_unplugged b p = (if \<not> charging b then p\<lparr>alertTriggered := False\<rparr> else p)"

text \<open>
  One run of the callback at \<open>Date.now() = currentTime\<close>. The effect installs no interval
  unless \<open>isMonitoring\<close> holds and \<open>battery\<close> is set, so there the state stays as it is.
  \<open>s\<close> is the closure, the second state the pending one.
\<close>

definition tick :: "int \<Rightarrow> state \<Rightarrow> effect list \<times> state" where
  "tick currentTime s =
     (case battery s of
        None \<Rightarrow> ([], s)
      | Some b \<Rightarrow>
          if \<not> isMonitoring s then ([], s)
          else
            (let (e1, p1) = record_sample s b currentTime s;
                 (e2, p2) = check_target s b p1
             in (e1 @ e2, check_unplugged b p2)))"

subsection \<open>Handlers\<close>

text \<open>
  \<open>updateBattery\<close>, with the reading of \<open>batteryRef.current\<close> as arguments: \<open>lvl\<close> is
  \<open>batteryRef.current.level * 100\<close>.
\<close>

definition updateBattery :: "rat \<Rightarrow> bool \<Rightarrow> state \<Rightarrow> state" where
  "updateBattery lvl chg s = s\<lparr>battery := Some \<lparr>level = lvl, charging = chg\<rparr>\<rparr>"

definition startMonitoring :: "state \<Rightarrow> state" where
  "startMonitoring s =
     (case battery s of
        None \<Rightarrow> s\<lparr>notification := BatteryNotAvailable\<rparr>
      | Some _ \<Rightarrow>
          s\<lparr>isMonitoring := True, monitoringRef := True, alertTriggered := False,
            chargingData := [], notification := MonitoringActive (targetPercentage s)\<rparr>)"

definition stopMonitoring :: "state \<Rightarrow> state" where
  "stopMonitoring s =
     s\<lparr>isMonitoring := False, monitoringRef := False, notification := MonitoringStopped,
       estimatedTime := None\<rparr>"

text \<open>
  The state setter called by the slider's \<open>onChange\<close> (line 213), with \<open>Number(e.target.value)\<close>
  as argument. The handler itself checks nothing.
\<close>

definition setTargetPercentage :: "rat \<Rightarrow> state \<Rightarrow> state" where
  "setTargetPercentage v s = s\<lparr>targetPercentage := v\<rparr>"




text \<open>
  The spec's \<open>ingest(level, charging, atTime)\<close>: the battery listener stores the reading and
  the next run of the interval callback processes it.
\<close>

definition ingest :: "rat \<times> bool \<times> int \<Rightarrow> state \<Rightarrow> effect list \<times> state" where
  "ingest x s = (case x of (lvl, chg, t) \<Rightarrow> tick t (updateBattery lvl chg s))"

fun ingests :: "(rat \<times> bool \<times> int) list \<Rightarrow> state \<Rightarrow> effect list \<times> state" where
  "ingests [] s = ([], s)"
| "ingests (x # xs) s =
     (let (e, s1) = ingest x s; (es, s2) = ingests xs s1 in (e @ es, s2))"

definition alertCount :: "effect list \<Rightarrow> nat" where
  "alertCount es = length (filter (\<lambda>e. e = TriggerAlert) es)"

text \<open>
  The \<open>i\<close>-th call of a sequence of \<open>ingest\<close> calls, started in \<open>s\<close>, has a level at or
  above the target while charging, and finds the session armed (\<open>alertTriggered\<close> false).
\<close>

definition armed_hit :: "(rat \<times> bool \<times> int) list \<Rightarrow> state \<Rightarrow> nat \<Rightarrow> bool" where
  "armed_hit xs s i =
     (case xs ! i of (l, c, t) \<Rightarrow>
        (let si = snd (ingests (take i xs) s)
         in targetPercentage si \<le> l \<and> c \<and> \<not> alertTriggered si))"

text \<open>
  The two-point slope of a window, as lines 79 to 81 compute it between their first and last
  point: \<open>(lastLevel - firstLevel) / ((lastTime - firstTime) in minutes)\<close>. An empty window
  has no first sample.
\<close>

definition two_point_rate :: "sample list \<Rightarrow> jsnum option" where
  "two_point_rate w =
     (case w of
        [] \<Rightarrow> None
      | r0 # _ \<Rightarrow>
          Some (js_div (s_level (last w) - s_level r0)
                       (of_int (s_time (last w) - s_time r0) / 1000 / 60)))"

text \<open>
  Written from the spec's words (section 4.1, \<open>estimateRateUnitsPerMinute\<close>), to be compared
  with \<open>chargeRate\<close>: the most recent \<open>min(recentCount, size)\<close> samples of the window; null
  below two samples and on zero elapsed time; otherwise the two-point slope per minute.
\<close>

definition spec_estimateRateUnitsPerMinute :: "nat \<Rightarrow> sample list \<Rightarrow> rat option" where
  "spec_estimateRateUnitsPerMinute recentCount w =
     (let recent = slice_last (min recentCount (length w)) w
      in if length recent < 2 then None
         else
           (let elapsed = of_int (s_time (last recent) - s_time (hd recent)) / 1000 / 60
            in if elapsed = 0 then None
               else Some ((s_level (last recent) - s_level (hd recent)) / elapsed)))"

subsection \<open>Doubles\<close>

text \<open>
  The value of an estimate depends on how each operation of lines 79 to 85 rounds, so for
  it the operations are also modelled as JavaScript performs them, in IEEE 754 binary64
  with round to nearest, ties to even: the result of an operation on doubles is the exact
  result, rounded by \<open>round64\<close>. The two zeros are not told apart; no result below depends on
  the sign of a zero.
\<close>

text \<open>\<open>ilog2 n\<close> is the position of the leading bit of \<open>n\<close>: \<open>2 ^ ilog2 n <= n < 2 ^ (ilog2 n + 1)\<close>.\<close>

function ilog2 :: "int \<Rightarrow> int" where
  "ilog2 n = (if n < 2 then 0 else 1 + ilog2 (n div 2))"
  by pat_completeness auto
termination
  by (relation "measure nat") auto

definition pow2 :: "int \<Rightarrow> rat" where
  "pow2 k = (if 0 \<le> k then 2 ^ nat k else 1 / 2 ^ nat (- k))"

text \<open>The binary exponent of a positive number: \<open>pow2 (binade a) <= a < pow2 (binade a + 1)\<close>.\<close>

definition binade :: "rat \<Rightarrow> int" where
  "binade a = (if 1 \<le> a then ilog2 \<lfloor>a\<rfloor> else - (1 + ilog2 (\<lceil>1 / a\<rceil> - 1)))"

definition round_half_even :: "rat \<Rightarrow> int" where
  "round_half_even n =
     (let f = \<lfloor>n\<rfloor>; d = n - of_int f
      in if d < 1 / 2 then f else if 1 / 2 < d then f + 1 else if even f then f else f + 1)"

text \<open>
  Rounding to a double: 53 significant bits, the smallest spacing \<open>2 ^ -1074\<close>, and an
  infinity from \<open>2 ^ 1024\<close> on.
\<close>

definition round64 :: "rat \<Rightarrow> jsnum" where
  "round64 x =
     (if x = 0 then Num 0
      else
        (let a = \<bar>x\<bar>;
             q = pow2 (max (binade a - 52) (- 1074));
             v = of_int (round_half_even (a / q)) * q
         in if 2 ^ 1024 \<le> v then (if 0 < x then PosInf else NegInf)
            else Num (if 0 < x then v else - v)))"

text \<open>JavaScript's \<open>/\<close> on doubles.\<close>

fun js_div64 :: "jsnum \<Rightarrow> jsnum \<Rightarrow> jsnum" where
  "js_div64 (Num a) (Num b) =
     (if b \<noteq> 0 then round64 (a / b)
      else if 0 < a then PosInf
      else if a < 0 then NegInf
      else NaN)"
| "js_div64 (Num a) PosInf = Num 0"
| "js_div64 (Num a) NegInf = Num 0"
| "js_div64 PosInf (Num b) = (if 0 \<le> b then PosInf else NegInf)"
| "js_div64 NegInf (Num b) = (if 0 \<le> b then NegInf else PosInf)"
| "js_div64 _ _ = NaN"

text \<open>\<open>r >= 0\<close>: false for \<open>NaN\<close>.\<close>

fun js_ge0 :: "jsnum \<Rightarrow> bool" where
  "js_ge0 (Num r) = (0 \<le> r)"
| "js_ge0 PosInf = True"
| "js_ge0 NegInf = False"
| "js_ge0 NaN = False"

text \<open>Lines 77 to 81 on doubles.\<close>

definition chargeRate64 :: "sample list \<Rightarrow> rat \<Rightarrow> int \<Rightarrow> jsnum option" where
  "chargeRate64 cd currentLevel currentTime =
     (if length cd > 5 then
        (case slice_last 10 cd of
           [] \<Rightarrow> None
         | r0 # _ \<Rightarrow>
             (let timeDiff =
                    js_div64 (js_div64 (round64 (of_int (currentTime - s_time r0))) (Num 1000))
                      (Num 60);
                  levelDiff = round64 (currentLevel - s_level r0)
              in Some (js_div64 levelDiff timeDiff)))
      else None)"

text \<open>Lines 84 and 85 on doubles; \<open>Math.ceil\<close> of a double is exact.\<close>

definition estimatedMinutes64 :: "rat \<Rightarrow> rat \<Rightarrow> jsnum \<Rightarrow> jsnum" where
  "estimatedMinutes64 target currentLevel rate =
     (let remainingPercent = round64 (target - currentLevel)
      in js_ceil (js_div64 remainingPercent rate))"

text \<open>Lines 70 to 89, the interval callback and \<open>ingest\<close>, with the arithmetic on doubles.\<close>

definition record_sample64 :: "state \<Rightarrow> battery_reading \<Rightarrow> int \<Rightarrow> state \<Rightarrow> effect list \<times> state" where
  "record_sample64 s b currentTime p =
     (if charging b \<and> level b < targetPercentage s then
        (let p1 = p\<lparr>chargingData := push (chargingData p) \<lparr>s_level = level b, s_time = currentTime\<rparr>\<rparr>
         in case chargeRate64 (chargingData s) (level b) currentTime of
              None \<Rightarrow> ([], p1)
            | Some r \<Rightarrow>
                if js_gt0 r then
                  (let m = estimatedMinutes64 (targetPercentage s) (level b) r
                   in ([SetEstimatedTime m], p1\<lparr>estimatedTime := Some m\<rparr>))
                else ([], p1))
      else ([], p))"

definition tick64 :: "int \<Rightarrow> state \<Rightarrow> effect list \<times> state" where
  "tick64 currentTime s =
     (case battery s of
        None \<Rightarrow> ([], s)
      | Some b \<Rightarrow>
          if \<not> isMonitoring s then ([], s)
          else
            (let (e1, p1) = record_sample64 s b currentTime s;
                 (e2, p2) = check_target s b p1
             in (e1 @ e2, check_unplugged b p2)))"

definition ingest64 :: "rat \<times> bool \<times> int \<Rightarrow> state \<Rightarrow> effect list \<times> state" where
  "ingest64 x s = (case x of (lvl, chg, t) \<Rightarrow> tick64 t (updateBattery lvl chg s))"

fun ingests64 :: "(rat \<times> bool \<times> int) list \<Rightarrow> state \<Rightarrow> effect list \<times> state" where
  "ingests64 [] s = ([], s)"
| "ingests64 (x # xs) s =
     (let (e, s1) = ingest64 x s; (es, s2) = ingests64 xs s1 in (e @ es, s2))"

subsection \<open>Reachable states\<close>

text \<open>
  The states the component can be in: the handlers are applied where the page offers them
  (the start button is rendered while not monitoring, the stop button while monitoring, and
  the slider is disabled while monitoring). The target setter is taken with any value, which
  covers every value the slider can hand to it.
\<close>

inductive reachable :: "state \<Rightarrow> bool" where
  r_init: "reachable initial"
| r_battery: "reachable s \<Longrightarrow> reachable (updateBattery lvl chg s)"
| r_notify: "reachable s \<Longrightarrow> reachable (s\<lparr>notification := n\<rparr>)"
| r_target: "reachable s \<Longrightarrow> \<not> isMonitoring s \<Longrightarrow> reachable (setTargetPercentage v s)"
| r_start: "reachable s \<Longrightarrow> \<not> isMonitoring s \<Longrightarrow> reachable (startMonitoring s)"
| r_stop: "reachable s \<Longrightarrow> isMonitoring s \<Longrightarrow> reachable (stopMonitoring s)"
| r_tick: "reachable s \<Longrightarrow> reachable (snd (tick t s))"

section \<open>The sample window\<close>

lemma length_push: "length w \<le> 50 \<Longrightarrow> length (push w x) \<le> 50"
  by (simp add: push_def Let_def)

lemma push_below: "length w < 50 \<Longrightarrow> push w x = w @ [x]"
  by (simp add: push_def Let_def)

lemma push_full: "length w = 50 \<Longrightarrow> push w x = tl w @ [x]"
  by (cases w) (simp_all add: push_def Let_def)

lemma push_drop:
  "length w \<le> 50 \<Longrightarrow> push w x = drop (length (w @ [x]) - 50) (w @ [x])"
proof (cases "length w = 50")
  case True
  then show ?thesis by (cases w) (simp_all add: push_full)
next
  case False
  assume "length w \<le> 50"
  with False show ?thesis by (simp add: push_below)
qed

lemma pushes_drop:
  "length w \<le> 50 \<Longrightarrow> pushes w xs = drop (length (w @ xs) - 50) (w @ xs)"
proof (induction xs arbitrary: w)
  case Nil
  then show ?case by simp
next
  case (Cons x xs)
  have "pushes (push w x) xs = drop (length (push w x @ xs) - 50) (push w x @ xs)"
    using Cons.prems by (intro Cons.IH length_push)
  also have "\<dots> = drop (length (w @ x # xs) - 50) (w @ x # xs)"
  proof (cases "length w = 50")
    case True
    then show ?thesis by (cases w) (simp_all add: push_full)
  next
    case False
    with Cons.prems show ?thesis by (simp add: push_below)
  qed
  finally show ?case by simp
qed

lemma length_pushes: "length w \<le> 50 \<Longrightarrow> length (pushes w xs) \<le> 50"
  by (induction xs arbitrary: w) (simp_all add: length_push)

lemma tick_window:
  "chargingData (snd (tick t s)) = chargingData s \<or>
   (\<exists>x. chargingData (snd (tick t s)) = push (chargingData s) x)"
  by (auto simp: tick_def record_sample_def check_target_def check_unplugged_def
      triggerAlert_def Let_def split: option.splits)

lemma reachable_window: "reachable s \<Longrightarrow> length (chargingData s) \<le> 50"
proof (induction rule: reachable.induct)
  case (r_tick s t)
  then show ?case using tick_window [of t s] by (auto simp: length_push)
qed (auto simp: initial_def updateBattery_def setTargetPercentage_def startMonitoring_def
    stopMonitoring_def split: option.splits)

text \<open>
  C3. Pushing any sequence of samples into the empty window (the window of the initial
  state and of every start) leaves at most 50 samples, namely the last 50 pushed, in the
  order pushed; more than 50 pushes leave exactly 50. A push into a window of 50 samples
  drops the oldest one and appends the new one. The window of every state the component
  reaches holds at most 50 samples.
\<close>

theorem window_bound:
  "length (pushes [] xs) \<le> 50 \<and>
   pushes [] xs = slice_last 50 xs \<and>
   (length xs > 50 \<longrightarrow> length (pushes [] xs) = 50) \<and>
   (length w = 50 \<longrightarrow> push w x = tl w @ [x]) \<and>
   (reachable s \<longrightarrow> length (chargingData s) \<le> 50)"
proof -
  have "pushes [] xs = slice_last 50 xs"
    using pushes_drop [of "[]" xs] by (simp add: slice_last_def)
  then show ?thesis
    by (simp add: slice_last_def push_full reachable_window)
qed

theorem window_bound_witness:
  "length (map (\<lambda>n. \<lparr>s_level = of_nat n, s_time = int n\<rparr>) [0..<52]) > 50 \<and>
   length (replicate 50 \<lparr>s_level = 1, s_time = 2\<rparr>) = 50 \<and>
   reachable initial \<and>
   pushes [] (map (\<lambda>n. \<lparr>s_level = of_nat n, s_time = int n\<rparr>) [0..<52])
     = map (\<lambda>n. \<lparr>s_level = of_nat n, s_time = int n\<rparr>) [2..<52] \<and>
   length (pushes [] (map (\<lambda>n. \<lparr>s_level = of_nat n, s_time = int n\<rparr>) [0..<52])) = 50 \<and>
   push (replicate 50 \<lparr>s_level = 1, s_time = 2\<rparr>) \<lparr>s_level = 3, s_time = 4\<rparr>
     = replicate 49 \<lparr>s_level = 1, s_time = 2\<rparr> @ [\<lparr>s_level = 3, s_time = 4\<rparr>] \<and>
   length (chargingData initial) \<le> 50"
proof -
  let ?xs = "map (\<lambda>n. \<lparr>s_level = of_nat n, s_time = int n\<rparr>) [0..<52]"
  let ?w = "replicate 50 \<lparr>s_level = 1::rat, s_time = 2::int\<rparr>"
  note wb = window_bound [of ?xs ?w "\<lparr>s_level = 3, s_time = 4\<rparr>" initial]
  have len: "length ?xs > 50" and lenw: "length ?w = 50"
    by simp_all
  have "slice_last 50 ?xs = map (\<lambda>n. \<lparr>s_level = of_nat n, s_time = int n\<rparr>) [2..<52]"
    by (simp add: slice_last_def drop_map del: upt_rec_numeral, simp only: numeral_2_eq_2)
  moreover have "tl ?w = replicate 49 \<lparr>s_level = 1, s_time = 2\<rparr>"
    by (simp add: tl_replicate)
  ultimately show ?thesis
    using wb len lenw r_init by (simp del: upt_rec_numeral)
qed

section \<open>The interval callback\<close>

lemmas tick_defs = ingest_def tick_def updateBattery_def record_sample_def check_target_def
  check_unplugged_def triggerAlert_def Let_def

lemma ingest_frame:
  "isMonitoring (snd (ingest x s)) = isMonitoring s"
  "targetPercentage (snd (ingest x s)) = targetPercentage s"
  by (auto simp: tick_defs split: option.splits prod.splits)

lemma ingest_charging_alert:
  "alertCount (fst (ingest (l, True, t) s)) =
     (if isMonitoring s \<and> targetPercentage s \<le> l \<and> \<not> alertTriggered s then 1 else 0)"
  "alertTriggered (snd (ingest (l, True, t) s)) =
     (alertTriggered s \<or> (isMonitoring s \<and> targetPercentage s \<le> l))"
  by (auto simp: tick_defs alertCount_def split: option.splits prod.splits)

lemma ingests_Cons:
  "fst (ingests (x # xs) s) = fst (ingest x s) @ fst (ingests xs (snd (ingest x s)))"
  "snd (ingests (x # xs) s) = snd (ingests xs (snd (ingest x s)))"
  by (simp_all add: split_beta Let_def)

declare ingests.simps(2) [simp del]

lemma alertCount_append: "alertCount (a @ b) = alertCount a + alertCount b"
  by (simp add: alertCount_def)

lemma no_refire:
  "alertTriggered s \<Longrightarrow> \<forall>x\<in>set xs. fst (snd x) \<Longrightarrow> alertCount (fst (ingests xs s)) = 0"
proof (induction xs arbitrary: s)
  case Nil
  then show ?case by (simp add: alertCount_def)
next
  case (Cons x xs)
  obtain l t where x: "x = (l, True, t)"
    using Cons.prems(2) by (cases x) auto
  have "alertTriggered (snd (ingest x s))"
    using Cons.prems(1) by (simp add: x ingest_charging_alert)
  then have "alertCount (fst (ingests xs (snd (ingest x s)))) = 0"
    using Cons.prems(2) by (intro Cons.IH) auto
  then show ?case
    using Cons.prems(1) by (simp add: ingests_Cons alertCount_append x ingest_charging_alert)
qed

lemma armed_hit_Suc: "armed_hit (x # xs) s (Suc j) = armed_hit xs (snd (ingest x s)) j"
  by (simp add: armed_hit_def ingests_Cons)

lemma armed_hit_0: "armed_hit (x # xs) s 0 = armed_hit [x] s 0"
  by (simp add: armed_hit_def)

lemma armed_hit_Cons:
  "(\<exists>i<Suc (length xs). armed_hit (x # xs) s i) \<longleftrightarrow>
     armed_hit [x] s 0 \<or> (\<exists>i<length xs. armed_hit xs (snd (ingest x s)) i)"
  by (simp add: Ex_less_Suc2 armed_hit_Suc armed_hit_0 [of x xs])

text \<open>
  C1. In a run of \<open>ingest\<close> calls that all report charging, made while monitoring with no
  start or stop in between, \<open>triggerAlert\<close> is called at most once; it is called exactly
  once if and only if some call of the run has a level at or above the target and finds the
  session armed.
\<close>

theorem single_fire:
  assumes "isMonitoring s" and "\<forall>x\<in>set xs. fst (snd x)"
  shows "alertCount (fst (ingests xs s)) \<le> 1 \<and>
         (alertCount (fst (ingests xs s)) = 1 \<longleftrightarrow> (\<exists>i<length xs. armed_hit xs s i))"
  using assms
proof (induction xs arbitrary: s)
  case Nil
  then show ?case by (simp add: alertCount_def)
next
  case (Cons x xs)
  obtain l t where x: "x = (l, True, t)"
    using Cons.prems(2) by (cases x) auto
  let ?s1 = "snd (ingest x s)"
  have mon: "isMonitoring ?s1"
    using Cons.prems(1) by (simp add: ingest_frame)
  have rest: "\<forall>y\<in>set xs. fst (snd y)"
    using Cons.prems(2) by simp
  have hit0: "armed_hit [x] s 0 \<longleftrightarrow> targetPercentage s \<le> l \<and> \<not> alertTriggered s"
    by (simp add: armed_hit_def x)
  show ?case
  proof (cases "targetPercentage s \<le> l \<and> \<not> alertTriggered s")
    case True
    then have "alertTriggered ?s1"
      using Cons.prems(1) by (simp add: x ingest_charging_alert)
    then have "alertCount (fst (ingests xs ?s1)) = 0"
      using rest by (rule no_refire)
    moreover have "alertCount (fst (ingest x s)) = 1"
      using True Cons.prems(1) by (simp add: x ingest_charging_alert)
    ultimately show ?thesis
      using True hit0 by (simp add: ingests_Cons alertCount_append armed_hit_Cons)
  next
    case False
    then have "alertCount (fst (ingest x s)) = 0"
      by (auto simp add: x ingest_charging_alert)
    then show ?thesis
      using False hit0 Cons.IH [OF mon rest]
      by (auto simp add: ingests_Cons alertCount_append armed_hit_Cons)
  qed
qed


theorem single_fire_witness:
  "isMonitoring (startMonitoring (updateBattery 80 True initial)) \<and>
   list_all (\<lambda>x. fst (snd x)) [(80::rat, True, 0::int), (95, True, 2000), (96, True, 4000)] \<and>
   armed_hit [(80, True, 0), (95, True, 2000), (96, True, 4000)]
     (startMonitoring (updateBattery 80 True initial)) 1 \<and>
   alertCount (fst (ingests [(80, True, 0), (95, True, 2000), (96, True, 4000)]
     (startMonitoring (updateBattery 80 True initial)))) = 1"
proof -
  let ?s = "startMonitoring (updateBattery 80 True initial)"
  let ?xs = "[(80::rat, True, 0::int), (95, True, 2000), (96, True, 4000)]"
  have mon: "isMonitoring ?s"
    by (simp add: startMonitoring_def updateBattery_def initial_def)
  have chg: "\<forall>x\<in>set ?xs. fst (snd x)"
    by simp
  have hit: "armed_hit ?xs ?s 1"
    by (simp add: armed_hit_def ingests.simps tick_defs push_def chargeRate_def
        startMonitoring_def initial_def)
  then have "\<exists>i<length ?xs. armed_hit ?xs ?s i"
    by (intro exI [of _ 1]) simp
  with single_fire [OF mon chg] mon hit show ?thesis
    by simp
qed


section \<open>Unplugging re-arms the alert\<close>

lemma ingests_frame:
  "isMonitoring (snd (ingests xs s)) = isMonitoring s \<and>
   targetPercentage (snd (ingests xs s)) = targetPercentage s"
  by (induction xs arbitrary: s) (simp_all add: ingests_Cons ingest_frame)

lemma ingest_unplugged:
  "isMonitoring s \<Longrightarrow>
   ingest (l, False, t) s = ([], (updateBattery l False s)\<lparr>alertTriggered := False\<rparr>)"
  by (simp add: tick_defs)

lemma ingest_at_target:
  "isMonitoring s \<Longrightarrow> targetPercentage s \<le> l \<Longrightarrow> \<not> alertTriggered s \<Longrightarrow>
   ingest (l, True, t) s = ([TriggerAlert], triggerAlert (updateBattery l True s))"
  by (simp add: tick_defs)

lemma ingest_below_target:
  "isMonitoring s \<Longrightarrow> l < targetPercentage s \<Longrightarrow>
   ingest (l, True, t) s =
     (let p1 = (updateBattery l True s)\<lparr>chargingData :=
                 push (chargingData s) \<lparr>s_level = l, s_time = t\<rparr>\<rparr>
      in case chargeRate (chargingData s) l t of
           None \<Rightarrow> ([], p1)
         | Some r \<Rightarrow>
             if js_gt0 r then
               ([SetEstimatedTime (estimatedMinutes (targetPercentage s) l r)],
                p1\<lparr>estimatedTime := Some (estimatedMinutes (targetPercentage s) l r)\<rparr>)
             else ([], p1))"
  by (simp add: tick_defs split: option.splits)

lemma ingest_quiet:
  "\<not> alertTriggered s \<Longrightarrow> \<not> fst (snd x) \<or> fst x < targetPercentage s \<Longrightarrow>
   \<not> alertTriggered (snd (ingest x s))"
  by (cases x) (auto simp: tick_defs split: option.splits prod.splits)

lemma ingests_quiet:
  "\<not> alertTriggered s \<Longrightarrow> \<forall>x\<in>set mid. \<not> fst (snd x) \<or> fst x < targetPercentage s \<Longrightarrow>
   \<not> alertTriggered (snd (ingests mid s))"
proof (induction mid arbitrary: s)
  case Nil
  then show ?case by simp
next
  case (Cons x mid)
  have "\<not> alertTriggered (snd (ingest x s))"
    using Cons.prems by (intro ingest_quiet) auto
  moreover have "\<forall>y\<in>set mid. \<not> fst (snd y) \<or> fst y < targetPercentage (snd (ingest x s))"
    using Cons.prems(2) by (simp add: ingest_frame)
  ultimately show ?case
    by (simp add: ingests_Cons Cons.IH)
qed

text \<open>
  C2, as stated, fails: an \<open>ingest\<close> that reports not charging does not clear the sample
  window. After one sample was recorded, the unplugged call leaves it in \<open>chargingData\<close>.
\<close>

theorem unplug_keeps_window_counterexample:
  "chargingData (snd (ingests [(60, True, 0), (60, False, 2000)]
      (startMonitoring (updateBattery 60 True initial)))) = [\<lparr>s_level = 60, s_time = 0\<rparr>] \<and>
   chargingData (snd (ingests [(60, True, 0), (60, False, 2000)]
      (startMonitoring (updateBattery 60 True initial)))) \<noteq> []"
  by (simp add: ingests.simps tick_defs push_def chargeRate_def startMonitoring_def initial_def)

text \<open>
  C2, amended. Every \<open>ingest\<close> that reports not charging, made while monitoring, calls
  neither \<open>setEstimatedTime\<close> nor \<open>triggerAlert\<close>, sets \<open>alertTriggered\<close> back to false and
  leaves the sample window as it is. So after it, and after any further calls that are
  unplugged or below the target, a call that reports charging at or above the target calls
  \<open>triggerAlert\<close> again.
\<close>

theorem unplug_rearms:
  assumes "isMonitoring s"
    and "\<forall>x\<in>set mid. \<not> fst (snd x) \<or> fst x < targetPercentage s"
    and "targetPercentage s \<le> l2"
  shows "fst (ingest (l, False, t) s) = [] \<and>
         \<not> alertTriggered (snd (ingest (l, False, t) s)) \<and>
         chargingData (snd (ingest (l, False, t) s)) = chargingData s \<and>
         fst (ingest (l2, True, t2) (snd (ingests mid (snd (ingest (l, False, t) s)))))
           = [TriggerAlert]"
proof -
  let ?s1 = "snd (ingest (l, False, t) s)"
  let ?s2 = "snd (ingests mid ?s1)"
  have s1: "ingest (l, False, t) s = ([], (updateBattery l False s)\<lparr>alertTriggered := False\<rparr>)"
    using assms(1) by (rule ingest_unplugged)
  have armed1: "\<not> alertTriggered ?s1" and tgt1: "targetPercentage ?s1 = targetPercentage s"
    and mon1: "isMonitoring ?s1"
    using assms(1) by (simp_all add: s1 updateBattery_def)
  have "\<not> alertTriggered ?s2"
    using armed1 assms(2) by (intro ingests_quiet) (simp_all add: tgt1)
  moreover have "isMonitoring ?s2" "targetPercentage ?s2 = targetPercentage s"
    using mon1 tgt1 by (simp_all add: ingests_frame)
  ultimately have "ingest (l2, True, t2) ?s2 = ([TriggerAlert], triggerAlert (updateBattery l2 True ?s2))"
    using assms(3) by (intro ingest_at_target) simp_all
  then show ?thesis
    by (simp add: s1 updateBattery_def)
qed


theorem unplug_rearms_witness:
  "isMonitoring (snd (ingest (95, True, 0) (startMonitoring (updateBattery 80 True initial)))) \<and>
   alertTriggered (snd (ingest (95, True, 0) (startMonitoring (updateBattery 80 True initial)))) \<and>
   list_all (\<lambda>x. \<not> fst (snd x) \<or>
      fst x < targetPercentage (snd (ingest (95, True, 0)
        (startMonitoring (updateBattery 80 True initial)))))
      [(80::rat, True, 4000::int), (70, False, 6000)] \<and>
   targetPercentage (snd (ingest (95, True, 0) (startMonitoring (updateBattery 80 True initial))))
     \<le> 93 \<and>
   fst (ingest (93, True, 8000) (snd (ingests [(80, True, 4000), (70, False, 6000)]
     (snd (ingest (96, False, 2000)
       (snd (ingest (95, True, 0) (startMonitoring (updateBattery 80 True initial))))))))) =
     [TriggerAlert]"
proof -
  let ?s = "snd (ingest (95, True, 0) (startMonitoring (updateBattery 80 True initial)))"
  have s: "?s = \<lparr>battery = Some \<lparr>level = 95, charging = True\<rparr>, targetPercentage = 90,
     isMonitoring = True, alertTriggered = True, chargingData = [], estimatedTime = None,
     notification = TimeToUnplug, monitoringRef = True\<rparr>"
    by (simp add: tick_defs startMonitoring_def initial_def)
  have mon: "isMonitoring ?s" and fired: "alertTriggered ?s"
    and tgt: "targetPercentage ?s \<le> 93"
    by (simp_all add: s)
  have mid: "\<forall>x\<in>set [(80::rat, True, 4000::int), (70, False, 6000)].
      \<not> fst (snd x) \<or> fst x < targetPercentage ?s"
    by (simp add: s)
  show ?thesis
    using unplug_rearms [OF mon mid tgt, of 96 2000 8000] mon fired tgt
    by (simp add: s)
qed


section \<open>What firing the alert changes\<close>

text \<open>
  C10. The \<open>ingest\<close> call that fires the alert (level at or above the target, charging,
  armed, while monitoring) calls \<open>triggerAlert\<close> and nothing else: of the session it changes
  the armed flag only. \<open>isMonitoring\<close> stays true, and \<open>targetPercentage\<close>, \<open>chargingData\<close>
  and \<open>estimatedTime\<close> are as before (the reading is stored in \<open>battery\<close>, the alert text in
  \<open>notification\<close>). The session goes on processing calls: a later call below the target
  while charging records its sample, and a later unplugged call re-arms.
\<close>

theorem alert_frame:
  assumes "isMonitoring s" and "targetPercentage s \<le> l" and "\<not> alertTriggered s"
  shows "ingest (l, True, t) s =
           ([TriggerAlert],
            s\<lparr>battery := Some \<lparr>level = l, charging = True\<rparr>, alertTriggered := True,
              notification := TimeToUnplug\<rparr>) \<and>
         isMonitoring (snd (ingest (l, True, t) s)) \<and>
         targetPercentage (snd (ingest (l, True, t) s)) = targetPercentage s \<and>
         chargingData (snd (ingest (l, True, t) s)) = chargingData s \<and>
         estimatedTime (snd (ingest (l, True, t) s)) = estimatedTime s \<and>
         alertTriggered (snd (ingest (l, True, t) s)) \<and>
         (l2 < targetPercentage s \<longrightarrow>
            chargingData (snd (ingest (l2, True, t2) (snd (ingest (l, True, t) s))))
              = push (chargingData s) \<lparr>s_level = l2, s_time = t2\<rparr>) \<and>
         \<not> alertTriggered (snd (ingest (l3, False, t3) (snd (ingest (l, True, t) s))))"
proof -
  let ?s1 = "s\<lparr>battery := Some \<lparr>level = l, charging = True\<rparr>, alertTriggered := True,
              notification := TimeToUnplug\<rparr>"
  have fire: "ingest (l, True, t) s = ([TriggerAlert], ?s1)"
    using assms by (simp add: ingest_at_target) (simp add: triggerAlert_def updateBattery_def)
  have mon: "isMonitoring ?s1"
    using assms(1) by simp
  have below: "chargingData (snd (ingest (l2, True, t2) ?s1))
      = push (chargingData s) \<lparr>s_level = l2, s_time = t2\<rparr>" if "l2 < targetPercentage s"
    using that mon
    by (simp add: ingest_below_target [of ?s1] Let_def updateBattery_def split: option.splits)
  have unplug: "\<not> alertTriggered (snd (ingest (l3, False, t3) ?s1))"
    using mon by (simp add: ingest_unplugged [of ?s1])
  show ?thesis
    using assms(1) below unplug by (simp add: fire)
qed

theorem alert_frame_witness:
  "isMonitoring (snd (ingest (80, True, 0) (startMonitoring (updateBattery 80 True initial)))) \<and>
   targetPercentage (snd (ingest (80, True, 0) (startMonitoring (updateBattery 80 True initial))))
     \<le> 91 \<and>
   \<not> alertTriggered (snd (ingest (80, True, 0) (startMonitoring (updateBattery 80 True initial)))) \<and>
   85 < targetPercentage (snd (ingest (80, True, 0)
     (startMonitoring (updateBattery 80 True initial)))) \<and>
   ingest (91, True, 2000)
     (snd (ingest (80, True, 0) (startMonitoring (updateBattery 80 True initial)))) =
     ([TriggerAlert],
      \<lparr>battery = Some \<lparr>level = 91, charging = True\<rparr>, targetPercentage = 90,
       isMonitoring = True, alertTriggered = True,
       chargingData = [\<lparr>s_level = 80, s_time = 0\<rparr>], estimatedTime = None,
       notification = TimeToUnplug, monitoringRef = True\<rparr>) \<and>
   chargingData (snd (ingest (85, True, 4000) (snd (ingest (91, True, 2000)
     (snd (ingest (80, True, 0) (startMonitoring (updateBattery 80 True initial))))))))
     = [\<lparr>s_level = 80, s_time = 0\<rparr>, \<lparr>s_level = 85, s_time = 4000\<rparr>]"
proof -
  let ?s = "snd (ingest (80, True, 0) (startMonitoring (updateBattery 80 True initial)))"
  have s: "?s = \<lparr>battery = Some \<lparr>level = 80, charging = True\<rparr>, targetPercentage = 90,
     isMonitoring = True, alertTriggered = False,
     chargingData = [\<lparr>s_level = 80, s_time = 0\<rparr>], estimatedTime = None,
     notification = MonitoringActive 90, monitoringRef = True\<rparr>"
    by (simp add: tick_defs push_def chargeRate_def startMonitoring_def initial_def)
  have mon: "isMonitoring ?s" and tgt: "targetPercentage ?s \<le> 91"
    and armed: "\<not> alertTriggered ?s" and below: "85 < targetPercentage ?s"
    by (simp_all add: s)
  note af = alert_frame [of ?s 91 2000 85 4000 70 6000, OF mon tgt armed]
  from af have fire: "ingest (91, True, 2000) ?s =
     ([TriggerAlert],
      ?s\<lparr>battery := Some \<lparr>level = 91, charging = True\<rparr>, alertTriggered := True,
        notification := TimeToUnplug\<rparr>)"
    by (rule conjunct1)
  from af below have next_sample:
    "chargingData (snd (ingest (85, True, 4000) (snd (ingest (91, True, 2000) ?s))))
       = push (chargingData ?s) \<lparr>s_level = 85, s_time = 4000\<rparr>"
    by blast
  have "chargingData (snd (ingest (85, True, 4000) (snd (ingest (91, True, 2000) ?s))))
       = [\<lparr>s_level = 80, s_time = 0\<rparr>, \<lparr>s_level = 85, s_time = 4000\<rparr>]"
    unfolding next_sample by (simp add: s push_def)
  moreover have "ingest (91, True, 2000) ?s =
     ([TriggerAlert],
      \<lparr>battery = Some \<lparr>level = 91, charging = True\<rparr>, targetPercentage = 90,
       isMonitoring = True, alertTriggered = True,
       chargingData = [\<lparr>s_level = 80, s_time = 0\<rparr>], estimatedTime = None,
       notification = TimeToUnplug, monitoringRef = True\<rparr>)"
    unfolding fire by (simp add: s)
  ultimately show ?thesis
    using mon tgt armed below by blast
qed

section \<open>The estimate\<close>

declare ilog2.simps [simp del]

declare ingests64.simps(2) [simp del]

lemma floor_rat_numeral: "\<lfloor>numeral a / numeral b :: rat\<rfloor> = numeral a div numeral b"
  by (metis floor_divide_of_int_eq of_int_numeral)

lemma ceiling_rat_numeral:
  "\<lceil>numeral a / numeral b :: rat\<rceil> = - (- numeral a div numeral b)"
  using ceiling_divide_eq_div [of "numeral a" "numeral b", where ?'a = rat] by simp

lemmas eval64 = binade_def pow2_def round_half_even_def ilog2.simps Let_def
  floor_rat_numeral ceiling_rat_numeral

lemmas tick64_defs = ingest64_def tick64_def updateBattery_def record_sample64_def
  check_target_def check_unplugged_def triggerAlert_def Let_def

lemma round64_pos:
  assumes "0 < x" and "binade x = e" and "pow2 (max (e - 52) (- 1074)) = q"
    and "round_half_even (x / q) = m" and "of_int m * q = v" and "v < 2 ^ 1024"
  shows "round64 x = Num v"
  using assms by (auto simp: round64_def Let_def)

lemma pow2_pos: "0 < pow2 k"
  by (simp add: pow2_def)

lemma round_half_even_nonneg: "0 \<le> n \<Longrightarrow> 0 \<le> round_half_even n"
  by (auto simp: round_half_even_def Let_def)

lemma round64_nonneg: "0 \<le> x \<Longrightarrow> js_ge0 (round64 x)"
proof (cases "x = 0")
  case True
  then show ?thesis by (simp add: round64_def)
next
  case False
  assume "0 \<le> x"
  with False have pos: "0 < x" by simp
  let ?q = "pow2 (max (binade \<bar>x\<bar> - 52) (- 1074))"
  have "0 \<le> \<bar>x\<bar> / ?q"
    using pow2_pos [of "max (binade \<bar>x\<bar> - 52) (- 1074)"] by simp
  then have "0 \<le> round_half_even (\<bar>x\<bar> / ?q)"
    by (rule round_half_even_nonneg)
  then have "0 \<le> rat_of_int (round_half_even (\<bar>x\<bar> / ?q)) * ?q"
    using pow2_pos [of "max (binade \<bar>x\<bar> - 52) (- 1074)"] by simp
  then show ?thesis
    using pos by (simp add: round64_def Let_def)
qed

lemma js_div64_nonneg: "js_ge0 a \<Longrightarrow> 0 < r \<Longrightarrow> js_ge0 (js_div64 a (Num r))"
  by (cases a) (simp_all add: round64_nonneg)

lemma js_ceil_nonneg: "js_ge0 a \<Longrightarrow> js_ge0 (js_ceil a)"
  by (cases a) simp_all

lemma ingest64_below_target:
  "isMonitoring s \<Longrightarrow> l < targetPercentage s \<Longrightarrow>
   ingest64 (l, True, t) s =
     (let p1 = (updateBattery l True s)\<lparr>chargingData :=
                 push (chargingData s) \<lparr>s_level = l, s_time = t\<rparr>\<rparr>
      in case chargeRate64 (chargingData s) l t of
           None \<Rightarrow> ([], p1)
         | Some r \<Rightarrow>
             if js_gt0 r then
               ([SetEstimatedTime (estimatedMinutes64 (targetPercentage s) l r)],
                p1\<lparr>estimatedTime := Some (estimatedMinutes64 (targetPercentage s) l r)\<rparr>)
             else ([], p1))"
  by (simp add: tick64_defs split: option.splits)

lemma round64_600000: "round64 600000 = Num 600000"
  by (rule round64_pos [where e = 19 and q = "1 / 2 ^ 33" and m = "600000 * 2 ^ 33"])
    (simp_all add: eval64)

lemma round64_600: "round64 600 = Num 600"
  by (rule round64_pos [where e = 9 and q = "1 / 2 ^ 43" and m = "600 * 2 ^ 43"])
    (simp_all add: eval64)

lemma round64_10: "round64 10 = Num 10"
  by (rule round64_pos [where e = 3 and q = "1 / 2 ^ 49" and m = "10 * 2 ^ 49"])
    (simp_all add: eval64)

lemma round64_5: "round64 5 = Num 5"
  by (rule round64_pos [where e = 2 and q = "1 / 2 ^ 50" and m = "5 * 2 ^ 50"])
    (simp_all add: eval64)

lemma round64_7: "round64 7 = Num 7"
  by (rule round64_pos [where e = 2 and q = "1 / 2 ^ 50" and m = "7 * 2 ^ 50"])
    (simp_all add: eval64)

lemma round64_20: "round64 20 = Num 20"
  by (rule round64_pos [where e = 4 and q = "1 / 2 ^ 48" and m = "20 * 2 ^ 48"])
    (simp_all add: eval64)

lemma round64_21: "round64 21 = Num 21"
  by (rule round64_pos [where e = 4 and q = "1 / 2 ^ 48" and m = "21 * 2 ^ 48"])
    (simp_all add: eval64)

lemma round64_40: "round64 40 = Num 40"
  by (rule round64_pos [where e = 5 and q = "1 / 2 ^ 47" and m = "40 * 2 ^ 47"])
    (simp_all add: eval64)

lemma round64_half: "round64 (1 / 2) = Num (1 / 2)"
  by (rule round64_pos [where e = "- 1" and q = "1 / 2 ^ 53" and m = "2 ^ 52"])
    (simp_all add: eval64)

lemma round64_7_10: "round64 (7 / 10) = Num (3152519739159347 / 4503599627370496)"
  by (rule round64_pos [where e = "- 1" and q = "1 / 2 ^ 53" and m = 6305039478318694])
    (simp_all add: eval64)

lemma round64_21_by_07:
  "round64 (94575592174780416 / 3152519739159347)
     = Num (8444249301319681 / 281474976710656)"
  by (rule round64_pos [where e = 4 and q = "1 / 2 ^ 48" and m = 8444249301319681])
    (simp_all add: eval64)

lemma js_div64_21_by_07:
  "js_div64 (Num 21) (Num (3152519739159347 / 4503599627370496))
     = Num (8444249301319681 / 281474976710656)"
  by (simp add: round64_21_by_07)

lemma timeDiff_600000:
  "js_div64 (js_div64 (round64 600000) (Num 1000)) (Num 60) = Num 10"
  by (simp add: round64_600000 round64_600 round64_10)

text \<open>
  C6. When an \<open>ingest\<close> call made while monitoring reports charging below the target and the
  rate computed on lines 77 to 81 is a finite positive number \<open>r\<close>, the call passes
  \<open>Math.ceil((target - level) / r)\<close>, each operation being JavaScript's on doubles, to
  \<open>setEstimatedTime\<close> and stores it; the value is never negative, so clamping it at zero
  changes nothing. With target 90, level 70 and rate 0.5 the value is 40.
\<close>

theorem estimate_on_positive_rate:
  assumes "isMonitoring s" and "l < targetPercentage s"
    and "chargeRate64 (chargingData s) l t = Some (Num r)" and "0 < r"
  shows "fst (ingest64 (l, True, t) s)
           = [SetEstimatedTime (js_ceil (js_div64 (round64 (targetPercentage s - l)) (Num r)))] \<and>
         estimatedTime (snd (ingest64 (l, True, t) s))
           = Some (js_ceil (js_div64 (round64 (targetPercentage s - l)) (Num r))) \<and>
         js_ge0 (js_ceil (js_div64 (round64 (targetPercentage s - l)) (Num r))) \<and>
         (targetPercentage s = 90 \<and> l = 70 \<and> r = 1 / 2 \<longrightarrow>
            fst (ingest64 (l, True, t) s) = [SetEstimatedTime (Num 40)])"
proof -
  let ?m = "js_ceil (js_div64 (round64 (targetPercentage s - l)) (Num r))"
  have m: "estimatedMinutes64 (targetPercentage s) l (Num r) = ?m"
    by (simp add: estimatedMinutes64_def)
  have run: "ingest64 (l, True, t) s =
      ([SetEstimatedTime ?m],
       (updateBattery l True s)\<lparr>chargingData := push (chargingData s) \<lparr>s_level = l, s_time = t\<rparr>,
          estimatedTime := Some ?m\<rparr>)"
    using assms by (simp add: ingest64_below_target m)
  have "js_ge0 (round64 (targetPercentage s - l))"
    using assms(2) by (intro round64_nonneg) simp
  then have nonneg: "js_ge0 ?m"
    using assms(4) by (intro js_ceil_nonneg js_div64_nonneg)
  have ex: "fst (ingest64 (l, True, t) s) = [SetEstimatedTime (Num 40)]"
    if "targetPercentage s = 90 \<and> l = 70 \<and> r = 1 / 2"
  proof -
    from that have a: "targetPercentage s = 90" "l = 70" "r = 1 / 2"
      by simp_all
    have "?m = Num 40"
      unfolding a by (simp add: round64_20 round64_40)
    then show ?thesis
      by (simp add: run)
  qed
  show ?thesis
    using nonneg by (intro conjI impI ex) (simp_all add: run)
qed

theorem estimate_on_positive_rate_witness:
  "isMonitoring (snd (ingests64 [(65, True, 0), (66, True, 120000), (67, True, 240000),
      (68, True, 360000), (69, True, 480000), (139 / 2, True, 540000)]
      (startMonitoring (updateBattery 65 True initial)))) \<and>
   70 < targetPercentage (snd (ingests64 [(65, True, 0), (66, True, 120000), (67, True, 240000),
      (68, True, 360000), (69, True, 480000), (139 / 2, True, 540000)]
      (startMonitoring (updateBattery 65 True initial)))) \<and>
   chargeRate64 (chargingData (snd (ingests64 [(65, True, 0), (66, True, 120000),
      (67, True, 240000), (68, True, 360000), (69, True, 480000), (139 / 2, True, 540000)]
      (startMonitoring (updateBattery 65 True initial))))) 70 600000 = Some (Num (1 / 2)) \<and>
   (0::rat) < 1 / 2 \<and>
   fst (ingest64 (70, True, 600000) (snd (ingests64 [(65, True, 0), (66, True, 120000),
      (67, True, 240000), (68, True, 360000), (69, True, 480000), (139 / 2, True, 540000)]
      (startMonitoring (updateBattery 65 True initial))))) = [SetEstimatedTime (Num 40)] \<and>
   chargeRate64 (chargingData (snd (ingests64 [(62, True, 0), (63, True, 2000),
      (64, True, 4000), (65, True, 6000), (66, True, 8000), (67, True, 10000)]
      (startMonitoring (updateBattery 62 True initial))))) 69 600000
     = Some (Num (3152519739159347 / 4503599627370496)) \<and>
   fst (ingest64 (69, True, 600000) (snd (ingests64 [(62, True, 0), (63, True, 2000),
      (64, True, 4000), (65, True, 6000), (66, True, 8000), (67, True, 10000)]
      (startMonitoring (updateBattery 62 True initial))))) = [SetEstimatedTime (Num 31)]"
proof -
  let ?s = "snd (ingests64 [(65, True, 0), (66, True, 120000), (67, True, 240000),
      (68, True, 360000), (69, True, 480000), (139 / 2, True, 540000)]
      (startMonitoring (updateBattery 65 True initial)))"
  let ?u = "snd (ingests64 [(62, True, 0), (63, True, 2000),
      (64, True, 4000), (65, True, 6000), (66, True, 8000), (67, True, 10000)]
      (startMonitoring (updateBattery 62 True initial)))"
  have s: "?s = \<lparr>battery = Some \<lparr>level = 139 / 2, charging = True\<rparr>, targetPercentage = 90,
     isMonitoring = True, alertTriggered = False,
     chargingData = [\<lparr>s_level = 65, s_time = 0\<rparr>, \<lparr>s_level = 66, s_time = 120000\<rparr>,
        \<lparr>s_level = 67, s_time = 240000\<rparr>, \<lparr>s_level = 68, s_time = 360000\<rparr>,
        \<lparr>s_level = 69, s_time = 480000\<rparr>, \<lparr>s_level = 139 / 2, s_time = 540000\<rparr>],
     estimatedTime = None, notification = MonitoringActive 90, monitoringRef = True\<rparr>"
    by (simp add: ingests64.simps tick64_defs push_def chargeRate64_def startMonitoring_def
        initial_def)
  have u: "?u = \<lparr>battery = Some \<lparr>level = 67, charging = True\<rparr>, targetPercentage = 90,
     isMonitoring = True, alertTriggered = False,
     chargingData = [\<lparr>s_level = 62, s_time = 0\<rparr>, \<lparr>s_level = 63, s_time = 2000\<rparr>,
        \<lparr>s_level = 64, s_time = 4000\<rparr>, \<lparr>s_level = 65, s_time = 6000\<rparr>,
        \<lparr>s_level = 66, s_time = 8000\<rparr>, \<lparr>s_level = 67, s_time = 10000\<rparr>],
     estimatedTime = None, notification = MonitoringActive 90, monitoringRef = True\<rparr>"
    by (simp add: ingests64.simps tick64_defs push_def chargeRate64_def startMonitoring_def
        initial_def)
  have mon: "isMonitoring ?s" and below: "70 < targetPercentage ?s"
    and tgt: "targetPercentage ?s = 90"
    by (simp_all add: s)
  have rate: "chargeRate64 (chargingData ?s) 70 600000 = Some (Num (1 / 2))"
    by (simp add: s chargeRate64_def slice_last_def timeDiff_600000 round64_5 round64_half)
  have pos: "(0::rat) < 1 / 2"
    by simp
  from estimate_on_positive_rate [OF mon below rate pos] tgt
  have first: "fst (ingest64 (70, True, 600000) ?s) = [SetEstimatedTime (Num 40)]"
    by blast
  have monu: "isMonitoring ?u" and belowu: "69 < targetPercentage ?u"
    and tgtu: "targetPercentage ?u = 90"
    by (simp_all add: u)
  have rateu: "chargeRate64 (chargingData ?u) 69 600000
      = Some (Num (3152519739159347 / 4503599627370496))"
    by (simp add: u chargeRate64_def slice_last_def timeDiff_600000 round64_7 round64_7_10)
  have posu: "(0::rat) < 3152519739159347 / 4503599627370496"
    by simp
  have val: "js_ceil (js_div64 (round64 21) (Num (3152519739159347 / 4503599627370496)))
      = Num 31"
    by (simp add: round64_21 js_div64_21_by_07 ceiling_rat_numeral del: js_div64.simps)
  from estimate_on_positive_rate [OF monu belowu rateu posu]
  have second: "fst (ingest64 (69, True, 600000) ?u) = [SetEstimatedTime (Num 31)]"
    by (simp add: tgtu val)
  show ?thesis
    using mon below rate pos first rateu second by blast
qed

text \<open>
  C7. When an \<open>ingest\<close> call made while monitoring reports charging below the target and the
  rate computed on lines 77 to 81 is zero or negative, the call does not call
  \<open>setEstimatedTime\<close>, and \<open>estimatedTime\<close> keeps the value it had.
\<close>

theorem stalled_keeps_estimate:
  assumes "isMonitoring s" and "l < targetPercentage s"
    and "chargeRate (chargingData s) l t = Some r" and "js_le0 r"
  shows "fst (ingest (l, True, t) s) = [] \<and>
         estimatedTime (snd (ingest (l, True, t) s)) = estimatedTime s"
proof -
  have "\<not> js_gt0 r"
    using assms(4) by (cases r) simp_all
  then show ?thesis
    using assms(1,2,3) by (simp add: ingest_below_target updateBattery_def)
qed

theorem stalled_keeps_estimate_witness:
  "isMonitoring (snd (ingests [(50, True, 0), (50, True, 60000), (50, True, 120000),
      (50, True, 180000), (50, True, 240000), (50, True, 300000), (56, True, 360000)]
      (startMonitoring (updateBattery 50 True initial)))) \<and>
   50 < targetPercentage (snd (ingests [(50, True, 0), (50, True, 60000), (50, True, 120000),
      (50, True, 180000), (50, True, 240000), (50, True, 300000), (56, True, 360000)]
      (startMonitoring (updateBattery 50 True initial)))) \<and>
   chargeRate (chargingData (snd (ingests [(50, True, 0), (50, True, 60000),
      (50, True, 120000), (50, True, 180000), (50, True, 240000), (50, True, 300000),
      (56, True, 360000)] (startMonitoring (updateBattery 50 True initial))))) 50 420000
      = Some (Num 0) \<and>
   js_le0 (Num 0) \<and>
   estimatedTime (snd (ingests [(50, True, 0), (50, True, 60000), (50, True, 120000),
      (50, True, 180000), (50, True, 240000), (50, True, 300000), (56, True, 360000)]
      (startMonitoring (updateBattery 50 True initial)))) = Some (Num 34) \<and>
   fst (ingest (50, True, 420000) (snd (ingests [(50, True, 0), (50, True, 60000),
      (50, True, 120000), (50, True, 180000), (50, True, 240000), (50, True, 300000),
      (56, True, 360000)] (startMonitoring (updateBattery 50 True initial))))) = [] \<and>
   estimatedTime (snd (ingest (50, True, 420000) (snd (ingests [(50, True, 0),
      (50, True, 60000), (50, True, 120000), (50, True, 180000), (50, True, 240000),
      (50, True, 300000), (56, True, 360000)]
      (startMonitoring (updateBattery 50 True initial)))))) = Some (Num 34)"
proof -
  let ?s = "snd (ingests [(50, True, 0), (50, True, 60000), (50, True, 120000),
      (50, True, 180000), (50, True, 240000), (50, True, 300000), (56, True, 360000)]
      (startMonitoring (updateBattery 50 True initial)))"
  have s: "?s = \<lparr>battery = Some \<lparr>level = 56, charging = True\<rparr>, targetPercentage = 90,
     isMonitoring = True, alertTriggered = False,
     chargingData = [\<lparr>s_level = 50, s_time = 0\<rparr>, \<lparr>s_level = 50, s_time = 60000\<rparr>,
        \<lparr>s_level = 50, s_time = 120000\<rparr>, \<lparr>s_level = 50, s_time = 180000\<rparr>,
        \<lparr>s_level = 50, s_time = 240000\<rparr>, \<lparr>s_level = 50, s_time = 300000\<rparr>,
        \<lparr>s_level = 56, s_time = 360000\<rparr>],
     estimatedTime = Some (Num 34), notification = MonitoringActive 90, monitoringRef = True\<rparr>"
    by (simp add: ingests.simps tick_defs push_def chargeRate_def slice_last_def js_div_def
        estimatedMinutes_def startMonitoring_def initial_def)
  have mon: "isMonitoring ?s" and below: "50 < targetPercentage ?s"
    and est: "estimatedTime ?s = Some (Num 34)"
    by (simp_all add: s)
  have rate: "chargeRate (chargingData ?s) 50 420000 = Some (Num 0)"
    by (simp add: s chargeRate_def slice_last_def js_div_def)
  have le: "js_le0 (Num 0)"
    by simp
  from stalled_keeps_estimate [OF mon below rate le] est
  have "fst (ingest (50, True, 420000) ?s) = []"
    and "estimatedTime (snd (ingest (50, True, 420000) ?s)) = Some (Num 34)"
    by simp_all
  then show ?thesis
    using mon below rate le est by blast
qed


section \<open>The rate\<close>

lemma slice_last_push:
  "slice_last 11 (push cd x) = slice_last 10 cd @ [x]"
proof (cases "length cd < 50")
  case True
  then show ?thesis
    by (simp add: push_def slice_last_def)
next
  case False
  then have len: "Suc (length cd - 11) = length cd - 10"
    by arith
  from False have "push cd x = drop 1 (cd @ [x])"
    by (cases cd) (simp_all add: push_def)
  then show ?thesis
    using False by (simp add: slice_last_def len)
qed

lemma chargeRate_two_point:
  "chargeRate cd l t =
     (if length cd > 5
      then two_point_rate (slice_last 10 cd @ [\<lparr>s_level = l, s_time = t\<rparr>])
      else None)"
proof (cases "length cd > 5")
  case True
  then have "slice_last 10 cd \<noteq> []"
    by (auto simp: slice_last_def)
  then obtain r0 rs where "slice_last 10 cd = r0 # rs"
    by (cases "slice_last 10 cd") auto
  then show ?thesis
    using True by (simp add: chargeRate_def two_point_rate_def)
next
  case False
  then show ?thesis by (simp add: chargeRate_def)
qed


text \<open>
  C4, as stated, fails. After ten samples (level 50 at time 0, then level 60 every two
  seconds) a call with level 61 at 20 s computes the rate from the sample at time 0, the
  first of the last ten samples of the window before the push: 11 units in a third of a
  minute, 33 per minute, and the estimate 1. The last ten samples of the window after the
  push start at 2 s with level 60, which gives 10/3 per minute.
\<close>

theorem rate_window_counterexample:
  "chargeRate (chargingData (snd (ingests [(50, True, 0), (60, True, 2000), (60, True, 4000),
      (60, True, 6000), (60, True, 8000), (60, True, 10000), (60, True, 12000),
      (60, True, 14000), (60, True, 16000), (60, True, 18000)]
      (startMonitoring (updateBattery 50 True initial))))) 61 20000 = Some (Num 33) \<and>
   fst (ingest (61, True, 20000) (snd (ingests [(50, True, 0), (60, True, 2000),
      (60, True, 4000), (60, True, 6000), (60, True, 8000), (60, True, 10000),
      (60, True, 12000), (60, True, 14000), (60, True, 16000), (60, True, 18000)]
      (startMonitoring (updateBattery 50 True initial))))) = [SetEstimatedTime (Num 1)] \<and>
   spec_estimateRateUnitsPerMinute 10
     (chargingData (snd (ingest (61, True, 20000) (snd (ingests [(50, True, 0),
      (60, True, 2000), (60, True, 4000), (60, True, 6000), (60, True, 8000),
      (60, True, 10000), (60, True, 12000), (60, True, 14000), (60, True, 16000),
      (60, True, 18000)] (startMonitoring (updateBattery 50 True initial)))))))
     = Some (10 / 3) \<and>
   chargeRate (chargingData (snd (ingests [(50, True, 0), (60, True, 2000), (60, True, 4000),
      (60, True, 6000), (60, True, 8000), (60, True, 10000), (60, True, 12000),
      (60, True, 14000), (60, True, 16000), (60, True, 18000)]
      (startMonitoring (updateBattery 50 True initial))))) 61 20000 \<noteq>
   map_option Num (spec_estimateRateUnitsPerMinute 10
     (chargingData (snd (ingest (61, True, 20000) (snd (ingests [(50, True, 0),
      (60, True, 2000), (60, True, 4000), (60, True, 6000), (60, True, 8000),
      (60, True, 10000), (60, True, 12000), (60, True, 14000), (60, True, 16000),
      (60, True, 18000)] (startMonitoring (updateBattery 50 True initial))))))))"
proof -
  let ?s = "snd (ingests [(50, True, 0), (60, True, 2000), (60, True, 4000),
      (60, True, 6000), (60, True, 8000), (60, True, 10000), (60, True, 12000),
      (60, True, 14000), (60, True, 16000), (60, True, 18000)]
      (startMonitoring (updateBattery 50 True initial)))"
  have s: "?s = \<lparr>battery = Some \<lparr>level = 60, charging = True\<rparr>, targetPercentage = 90,
     isMonitoring = True, alertTriggered = False,
     chargingData = [\<lparr>s_level = 50, s_time = 0\<rparr>, \<lparr>s_level = 60, s_time = 2000\<rparr>,
        \<lparr>s_level = 60, s_time = 4000\<rparr>, \<lparr>s_level = 60, s_time = 6000\<rparr>,
        \<lparr>s_level = 60, s_time = 8000\<rparr>, \<lparr>s_level = 60, s_time = 10000\<rparr>,
        \<lparr>s_level = 60, s_time = 12000\<rparr>, \<lparr>s_level = 60, s_time = 14000\<rparr>,
        \<lparr>s_level = 60, s_time = 16000\<rparr>, \<lparr>s_level = 60, s_time = 18000\<rparr>],
     estimatedTime = Some (Num 1), notification = MonitoringActive 90, monitoringRef = True\<rparr>"
    by (simp add: ingests.simps tick_defs push_def chargeRate_def slice_last_def js_div_def
        estimatedMinutes_def startMonitoring_def initial_def ceiling_rat_numeral)
  have rate: "chargeRate (chargingData ?s) 61 20000 = Some (Num 33)"
    by (simp add: s chargeRate_def slice_last_def js_div_def)
  have run: "ingest (61, True, 20000) ?s =
     ([SetEstimatedTime (Num 1)],
      ?s\<lparr>battery := Some \<lparr>level = 61, charging = True\<rparr>,
         chargingData := chargingData ?s @ [\<lparr>s_level = 61, s_time = 20000\<rparr>],
         estimatedTime := Some (Num 1)\<rparr>)"
    unfolding s
    by (simp add: tick_defs push_def chargeRate_def slice_last_def js_div_def
        estimatedMinutes_def ceiling_rat_numeral)
  have spec: "spec_estimateRateUnitsPerMinute 10
      (chargingData (snd (ingest (61, True, 20000) ?s))) = Some (10 / 3)"
    unfolding run by (simp add: s spec_estimateRateUnitsPerMinute_def slice_last_def)
  have eff: "fst (ingest (61, True, 20000) ?s) = [SetEstimatedTime (Num 1)]"
    by (simp add: run)
  have "chargeRate (chargingData ?s) 61 20000 \<noteq>
      map_option Num (spec_estimateRateUnitsPerMinute 10
        (chargingData (snd (ingest (61, True, 20000) ?s))))"
    unfolding rate spec by simp
  then show ?thesis
    using rate eff spec by blast
qed

text \<open>
  C4, amended. During an \<open>ingest\<close> call made while monitoring that reports charging below
  the target, the sample is pushed, and the history check (more than five samples) and the
  slice of the last ten samples are both evaluated on the same window, the one before the
  push. The current reading is the last point, so the rate, computed only when the window
  before the push holds more than five samples, is
  \<open>(lastLevel - firstLevel) / ((lastTime - firstTime) in minutes)\<close> over the most recent
  \<open>min(11, size)\<close> samples of the window after the push. A rate above zero is the only one
  that makes the call emit an estimate.
\<close>

theorem rate_over_closure_window:
  assumes "isMonitoring s" and "l < targetPercentage s"
  shows "chargingData (snd (ingest (l, True, t) s))
           = push (chargingData s) \<lparr>s_level = l, s_time = t\<rparr> \<and>
         chargeRate (chargingData s) l t =
           (if length (chargingData s) > 5
            then two_point_rate (slice_last 11 (chargingData (snd (ingest (l, True, t) s))))
            else None) \<and>
         fst (ingest (l, True, t) s) =
           (case chargeRate (chargingData s) l t of
              None \<Rightarrow> []
            | Some r \<Rightarrow>
                if js_gt0 r then [SetEstimatedTime (estimatedMinutes (targetPercentage s) l r)]
                else [])"
proof -
  have win: "chargingData (snd (ingest (l, True, t) s))
      = push (chargingData s) \<lparr>s_level = l, s_time = t\<rparr>"
    using assms
    by (simp add: ingest_below_target Let_def updateBattery_def split: option.splits)
  have eff: "fst (ingest (l, True, t) s) =
      (case chargeRate (chargingData s) l t of
         None \<Rightarrow> []
       | Some r \<Rightarrow>
           if js_gt0 r then [SetEstimatedTime (estimatedMinutes (targetPercentage s) l r)]
           else [])"
    using assms by (simp add: ingest_below_target Let_def split: option.splits)
  show ?thesis
    unfolding win slice_last_push using eff win
    by (simp add: chargeRate_two_point)
qed


theorem rate_over_closure_window_witness:
  "isMonitoring (snd (ingests [(50, True, 0), (60, True, 2000), (60, True, 4000),
      (60, True, 6000), (60, True, 8000), (60, True, 10000), (60, True, 12000),
      (60, True, 14000), (60, True, 16000), (60, True, 18000)]
      (startMonitoring (updateBattery 50 True initial)))) \<and>
   61 < targetPercentage (snd (ingests [(50, True, 0), (60, True, 2000), (60, True, 4000),
      (60, True, 6000), (60, True, 8000), (60, True, 10000), (60, True, 12000),
      (60, True, 14000), (60, True, 16000), (60, True, 18000)]
      (startMonitoring (updateBattery 50 True initial)))) \<and>
   two_point_rate (slice_last 11 (chargingData (snd (ingest (61, True, 20000)
     (snd (ingests [(50, True, 0), (60, True, 2000), (60, True, 4000),
      (60, True, 6000), (60, True, 8000), (60, True, 10000), (60, True, 12000),
      (60, True, 14000), (60, True, 16000), (60, True, 18000)]
      (startMonitoring (updateBattery 50 True initial)))))))) = Some (Num 33) \<and>
   fst (ingest (61, True, 20000)
     (snd (ingests [(50, True, 0), (60, True, 2000), (60, True, 4000),
      (60, True, 6000), (60, True, 8000), (60, True, 10000), (60, True, 12000),
      (60, True, 14000), (60, True, 16000), (60, True, 18000)]
      (startMonitoring (updateBattery 50 True initial))))) = [SetEstimatedTime (Num 1)]"
proof -
  let ?s = "snd (ingests [(50, True, 0), (60, True, 2000), (60, True, 4000),
      (60, True, 6000), (60, True, 8000), (60, True, 10000), (60, True, 12000),
      (60, True, 14000), (60, True, 16000), (60, True, 18000)]
      (startMonitoring (updateBattery 50 True initial)))"
  have s: "?s = \<lparr>battery = Some \<lparr>level = 60, charging = True\<rparr>, targetPercentage = 90,
     isMonitoring = True, alertTriggered = False,
     chargingData = [\<lparr>s_level = 50, s_time = 0\<rparr>, \<lparr>s_level = 60, s_time = 2000\<rparr>,
        \<lparr>s_level = 60, s_time = 4000\<rparr>, \<lparr>s_level = 60, s_time = 6000\<rparr>,
        \<lparr>s_level = 60, s_time = 8000\<rparr>, \<lparr>s_level = 60, s_time = 10000\<rparr>,
        \<lparr>s_level = 60, s_time = 12000\<rparr>, \<lparr>s_level = 60, s_time = 14000\<rparr>,
        \<lparr>s_level = 60, s_time = 16000\<rparr>, \<lparr>s_level = 60, s_time = 18000\<rparr>],
     estimatedTime = Some (Num 1), notification = MonitoringActive 90, monitoringRef = True\<rparr>"
    by (simp add: ingests.simps tick_defs push_def chargeRate_def slice_last_def js_div_def
        estimatedMinutes_def startMonitoring_def initial_def ceiling_rat_numeral)
  have mon: "isMonitoring ?s" and below: "61 < targetPercentage ?s"
    and len: "length (chargingData ?s) > 5" and tgt: "targetPercentage ?s = 90"
    by (simp_all add: s)
  have rate: "chargeRate (chargingData ?s) 61 20000 = Some (Num 33)"
    by (simp add: s chargeRate_def slice_last_def js_div_def)
  have m: "estimatedMinutes 90 61 (Num 33) = Num 1"
    by (simp add: estimatedMinutes_def js_div_def ceiling_rat_numeral)
  note inst = rate_over_closure_window [OF mon below, of 20000]
  from inst len rate
  have "two_point_rate (slice_last 11 (chargingData (snd (ingest (61, True, 20000) ?s))))
      = Some (Num 33)"
    by simp
  moreover from inst rate tgt m
  have "fst (ingest (61, True, 20000) ?s) = [SetEstimatedTime (Num 1)]"
    by simp
  ultimately show ?thesis
    using mon below by blast
qed








section \<open>Starting\<close>




lemma tick_idle: "\<not> isMonitoring s \<Longrightarrow> tick t s = ([], s)"
  by (simp add: tick_def split: option.splits)

lemma tick_monitoring: "isMonitoring (snd (tick t s)) = isMonitoring s"
  by (auto simp: tick_def record_sample_def check_target_def check_unplugged_def
      triggerAlert_def Let_def split: option.splits)

lemma idle_no_estimate: "reachable s \<Longrightarrow> \<not> isMonitoring s \<Longrightarrow> estimatedTime s = None"
proof (induction rule: reachable.induct)
  case r_init
  show ?case by (simp add: initial_def)
next
  case (r_battery s lvl chg)
  then show ?case by (simp add: updateBattery_def)
next
  case (r_notify s n)
  then show ?case by simp
next
  case (r_target s v)
  then show ?case by (simp add: setTargetPercentage_def)
next
  case (r_start s)
  then show ?case by (simp add: startMonitoring_def split: option.splits)
next
  case (r_stop s)
  show ?case by (simp add: stopMonitoring_def)
next
  case (r_tick s t)
  from r_tick.prems have idle: "\<not> isMonitoring s"
    by (simp add: tick_monitoring)
  then show ?case
    using r_tick.IH by (simp add: tick_idle)
qed

lemma reachable_ingest: "reachable s \<Longrightarrow> reachable (snd (ingest x s))"
  by (cases x) (simp add: ingest_def r_battery r_tick)

lemma reachable_ingests: "reachable s \<Longrightarrow> reachable (snd (ingests xs s))"
  by (induction xs arbitrary: s) (simp_all add: ingests_Cons reachable_ingest)

text \<open>
  C9. The start button is offered while the component is not monitoring. In every state
  the component reaches, a start with a battery reading available begins monitoring with an
  empty sample window, the alert armed and no estimate (\<open>startMonitoring\<close> empties the window
  and arms the alert itself; the estimate is null in every idle state, cleared by
  \<open>stopMonitoring\<close>, and the start leaves it so). Without a battery reading the start only
  reports that the battery is not available, and monitoring does not begin.
\<close>

theorem start_resets:
  assumes "reachable s" and "\<not> isMonitoring s"
  shows "(battery s \<noteq> None \<longrightarrow>
            isMonitoring (startMonitoring s) \<and>
            chargingData (startMonitoring s) = [] \<and>
            \<not> alertTriggered (startMonitoring s) \<and>
            estimatedTime (startMonitoring s) = None) \<and>
         (battery s = None \<longrightarrow>
            startMonitoring s = s\<lparr>notification := BatteryNotAvailable\<rparr> \<and>
            \<not> isMonitoring (startMonitoring s))"
  using assms idle_no_estimate [OF assms]
  by (auto simp: startMonitoring_def)


theorem start_resets_witness:
  "reachable (stopMonitoring (snd (ingests [(50, True, 0), (50, True, 60000),
      (50, True, 120000), (50, True, 180000), (50, True, 240000), (50, True, 300000),
      (56, True, 360000), (95, True, 420000)]
      (startMonitoring (updateBattery 50 True initial))))) \<and>
   \<not> isMonitoring (stopMonitoring (snd (ingests [(50, True, 0), (50, True, 60000),
      (50, True, 120000), (50, True, 180000), (50, True, 240000), (50, True, 300000),
      (56, True, 360000), (95, True, 420000)]
      (startMonitoring (updateBattery 50 True initial))))) \<and>
   estimatedTime (snd (ingests [(50, True, 0), (50, True, 60000),
      (50, True, 120000), (50, True, 180000), (50, True, 240000), (50, True, 300000),
      (56, True, 360000), (95, True, 420000)]
      (startMonitoring (updateBattery 50 True initial)))) = Some (Num 34) \<and>
   battery (stopMonitoring (snd (ingests [(50, True, 0), (50, True, 60000),
      (50, True, 120000), (50, True, 180000), (50, True, 240000), (50, True, 300000),
      (56, True, 360000), (95, True, 420000)]
      (startMonitoring (updateBattery 50 True initial))))) \<noteq> None \<and>
   isMonitoring (startMonitoring (stopMonitoring (snd (ingests [(50, True, 0),
      (50, True, 60000), (50, True, 120000), (50, True, 180000), (50, True, 240000),
      (50, True, 300000), (56, True, 360000), (95, True, 420000)]
      (startMonitoring (updateBattery 50 True initial)))))) \<and>
   chargingData (startMonitoring (stopMonitoring (snd (ingests [(50, True, 0),
      (50, True, 60000), (50, True, 120000), (50, True, 180000), (50, True, 240000),
      (50, True, 300000), (56, True, 360000), (95, True, 420000)]
      (startMonitoring (updateBattery 50 True initial)))))) = [] \<and>
   \<not> alertTriggered (startMonitoring (stopMonitoring (snd (ingests [(50, True, 0),
      (50, True, 60000), (50, True, 120000), (50, True, 180000), (50, True, 240000),
      (50, True, 300000), (56, True, 360000), (95, True, 420000)]
      (startMonitoring (updateBattery 50 True initial)))))) \<and>
   estimatedTime (startMonitoring (stopMonitoring (snd (ingests [(50, True, 0),
      (50, True, 60000), (50, True, 120000), (50, True, 180000), (50, True, 240000),
      (50, True, 300000), (56, True, 360000), (95, True, 420000)]
      (startMonitoring (updateBattery 50 True initial)))))) = None \<and>
   reachable initial \<and> \<not> isMonitoring initial \<and> battery initial = None \<and>
   \<not> isMonitoring (startMonitoring initial)"
proof -
  let ?run = "snd (ingests [(50, True, 0), (50, True, 60000),
      (50, True, 120000), (50, True, 180000), (50, True, 240000), (50, True, 300000),
      (56, True, 360000), (95, True, 420000)]
      (startMonitoring (updateBattery 50 True initial)))"
  have run: "?run = \<lparr>battery = Some \<lparr>level = 95, charging = True\<rparr>, targetPercentage = 90,
     isMonitoring = True, alertTriggered = True,
     chargingData = [\<lparr>s_level = 50, s_time = 0\<rparr>, \<lparr>s_level = 50, s_time = 60000\<rparr>,
        \<lparr>s_level = 50, s_time = 120000\<rparr>, \<lparr>s_level = 50, s_time = 180000\<rparr>,
        \<lparr>s_level = 50, s_time = 240000\<rparr>, \<lparr>s_level = 50, s_time = 300000\<rparr>,
        \<lparr>s_level = 56, s_time = 360000\<rparr>],
     estimatedTime = Some (Num 34), notification = TimeToUnplug, monitoringRef = True\<rparr>"
    by (simp add: ingests.simps tick_defs push_def chargeRate_def slice_last_def js_div_def
        estimatedMinutes_def startMonitoring_def initial_def)
  have "reachable (updateBattery 50 True initial)"
    by (intro r_battery r_init)
  moreover have "\<not> isMonitoring (updateBattery 50 True initial)"
    by (simp add: updateBattery_def initial_def)
  ultimately have "reachable (startMonitoring (updateBattery 50 True initial))"
    by (rule r_start)
  then have "reachable ?run"
    by (rule reachable_ingests)
  moreover have "isMonitoring ?run"
    by (simp add: run)
  ultimately have reach: "reachable (stopMonitoring ?run)"
    by (rule r_stop)
  have idle: "\<not> isMonitoring (stopMonitoring ?run)"
    by (simp add: stopMonitoring_def)
  have bat: "battery (stopMonitoring ?run) \<noteq> None"
    by (simp add: run stopMonitoring_def)
  have est: "estimatedTime ?run = Some (Num 34)"
    by (simp add: run)
  from start_resets [OF reach idle] bat
  have after: "isMonitoring (startMonitoring (stopMonitoring ?run))"
    "chargingData (startMonitoring (stopMonitoring ?run)) = []"
    "\<not> alertTriggered (startMonitoring (stopMonitoring ?run))"
    "estimatedTime (startMonitoring (stopMonitoring ?run)) = None"
    by blast+
  have init: "\<not> isMonitoring initial" "battery initial = None"
    by (simp_all add: initial_def)
  from start_resets [OF r_init init(1)] init(2)
  have "\<not> isMonitoring (startMonitoring initial)"
    by blast
  then show ?thesis
    using reach idle bat est after r_init init by blast
qed

end
